theory Spec2Isabelle
  imports Main "HOL-Library.Sublist"
begin

unbundle bit_operations_syntax

section \<open>A shallow embedding of small-shell.c\<close>

text \<open>
  The shell is a single C file. Each C function below is embedded as a HOL function of
  the same name. C strings are \<open>string\<close> (byte lists), \<open>int\<close> variables are \<open>int\<close>,
  pointers that may be \<open>NULL\<close> are options, and every write past the end of a buffer
  (undefined behaviour in C) is a value of the type \<open>error\<close>. What the operating system
  and the C library decide (\<open>fork\<close>, \<open>open\<close>, \<open>dup2\<close>, \<open>waitpid\<close>, \<open>execvp\<close>, \<open>chdir\<close>,
  \<open>getenv\<close>, \<open>getpid\<close>) is an argument of the model. The heap is not modelled:
  \<open>free_command\<close> has no counterpart, and \<open>free_background_pids\<close>, which runs after the
  loop of \<open>main\<close>, is left out.
\<close>

subsection \<open>Macros and the C library\<close>

text \<open>\<open>#define N_ARGS 512 + 1\<close>, \<open>#define LEN_INPUT 2048 + 1\<close>, \<open>#define DEV_NULL "/dev/null"\<close>.
  The first two are only used as an array size, a \<open>calloc\<close> count and a loop bound, where
  the missing parentheses change nothing.\<close>

definition N_ARGS :: nat where
  "N_ARGS = 512 + 1"

definition LEN_INPUT :: nat where
  "LEN_INPUT = 2048 + 1"

definition DEV_NULL :: string where
  "DEV_NULL = ''/dev/null''"

text \<open>A \<open>char*\<close> argument is read up to its first NUL byte.\<close>

definition c_str :: "string \<Rightarrow> string" where
  "c_str s = takeWhile (\<lambda>c. c \<noteq> CHR 0x00) s"

text \<open>\<open>printf("%d")\<close> and \<open>sprintf("%ld")\<close>: the decimal digits of an integer.\<close>

definition digit_char :: "nat \<Rightarrow> char" where
  "digit_char d = ''0123456789'' ! d"

function dec_nat :: "nat \<Rightarrow> string" where
  "dec_nat n = (if n < 10 then [digit_char n] else dec_nat (n div 10) @ [digit_char (n mod 10)])"
  by pat_completeness auto
termination
  by (relation "measure id") auto

declare dec_nat.simps [simp del]

definition dec_int :: "int \<Rightarrow> string" where
  "dec_int i = (if i < 0 then CHR ''-'' # dec_nat (nat (- i)) else dec_nat (nat i))"

text \<open>Writing past the end of an allocation is undefined behaviour in C; the model stops
  with an error there.\<close>

datatype error = Buffer_overflow | Args_overflow

text \<open>\<open>strcat(dest, src)\<close> into the \<open>calloc(LEN_INPUT, 1)\<close> buffer of \<open>parse\<close>: the result and
  its terminating NUL must fit in \<open>LEN_INPUT\<close> bytes.\<close>

definition strcat :: "string \<Rightarrow> string \<Rightarrow> error + string" where
  "strcat dest src =
     (if length dest + length src < LEN_INPUT then Inr (dest @ src) else Inl Buffer_overflow)"

text \<open>\<open>strtok_r(NULL, " \n", &p)\<close>: skip the delimiters at \<open>p\<close>; at the end of the string
  there is no token; otherwise the token runs up to the next delimiter, and \<open>p\<close> moves
  behind that delimiter (or to the end of the string).\<close>

definition is_delim :: "char \<Rightarrow> bool" where
  "is_delim c = (c = CHR '' '' \<or> c = CHR ''\<newline>'')"

definition strtok_r :: "string \<Rightarrow> (string \<times> string) option" where
  "strtok_r p =
     (let s = dropWhile is_delim p in
      if s = [] then None
      else Some (takeWhile (\<lambda>c. \<not> is_delim c) s, drop 1 (dropWhile (\<lambda>c. \<not> is_delim c) s)))"

subsection \<open>The operating system\<close>

text \<open>Constants of the system headers on Linux: \<open>O_RDONLY\<close>, \<open>O_WRONLY\<close>, \<open>O_CREAT\<close> of
  \<open><fcntl.h>\<close>, \<open>SIGINT\<close> and \<open>SIGTSTP\<close> of \<open><signal.h>\<close>.\<close>

definition O_RDONLY :: int where
  "O_RDONLY = 0"

definition O_WRONLY :: int where
  "O_WRONLY = 1"

definition O_CREAT :: int where
  "O_CREAT = 64"

definition SIGINT :: int where
  "SIGINT = 2"

definition SIGTSTP :: int where
  "SIGTSTP = 20"

text \<open>The macros of \<open><sys/wait.h>\<close> on Linux (glibc, \<open>bits/waitstatus.h\<close>):
  \<open>WTERMSIG(s) = s & 0x7f\<close>, \<open>WIFEXITED(s) = (WTERMSIG(s) == 0)\<close>,
  \<open>WEXITSTATUS(s) = (s & 0xff00) >> 8\<close> and
  \<open>WIFSIGNALED(s) = (((signed char) ((s & 0x7f) + 1) >> 1) > 0)\<close>.\<close>

definition WTERMSIG :: "int \<Rightarrow> int" where
  "WTERMSIG s = s AND 0x7f"

definition WIFEXITED :: "int \<Rightarrow> bool" where
  "WIFEXITED s = (WTERMSIG s = 0)"

definition WEXITSTATUS :: "int \<Rightarrow> int" where
  "WEXITSTATUS s = drop_bit 8 (s AND 0xff00)"

definition signed_char :: "int \<Rightarrow> int" where
  "signed_char x = (let b = x mod 256 in if b < 128 then b else b - 256)"

definition WIFSIGNALED :: "int \<Rightarrow> bool" where
  "WIFSIGNALED s = (drop_bit 1 (signed_char ((s AND 0x7f) + 1)) > 0)"

text \<open>A signal disposition: \<open>SIG_DFL\<close>, \<open>SIG_IGN\<close> or the function \<open>handle_sigtstp\<close>.\<close>

datatype handler = SIG_DFL | SIG_IGN | Handle_sigtstp

text \<open>A child of the shell, as \<open>waitpid\<close> sees it: still running, or terminated with a wait
  status and not yet reaped.\<close>

datatype child = Running | Terminated int

text \<open>What a blocking \<open>waitpid(child_pid, status, 0)\<close> does: it stores the status of the
  terminated child, or fails with -1 and stores nothing, or the child never terminates and
  the call never returns.\<close>

datatype wait_outcome = Reaped int | Wait_failed | Never_returns

text \<open>The answers of the operating system that the shell does not control.\<close>

record os =
  getpid :: int
  fork_result :: int
  open_result :: "string \<Rightarrow> int \<Rightarrow> int"
  dup2_result :: "int \<Rightarrow> int \<Rightarrow> int"
  execvp_fails :: "string \<Rightarrow> string list \<Rightarrow> bool"
  getenv_HOME :: "string option"
  chdir_result :: "string \<Rightarrow> string \<Rightarrow> string option"
  waitpid_blocking :: "int \<Rightarrow> wait_outcome"
  uninitialised_sigset :: "int set"

subsection \<open>The state of a process\<close>

text \<open>The global \<open>background\<close> (here \<open>background_global\<close>, since \<open>background\<close> is the field
  of \<open>struct command\<close>), the variables \<open>status\<close> and \<open>background_pids\<close> of \<open>main\<close> (the linked
  list as the list of its \<open>pid\<close> fields, head first), the bytes written to descriptor 1, the
  signal dispositions and mask, the files that descriptors 0 and 1 were redirected to, the
  working directory, the children of the process, and the log of the process identifiers
  that \<open>waitpid\<close> was called on with \<open>WNOHANG\<close>.\<close>

record shell =
  background_global :: int
  status :: int
  background_pids :: "int list"
  out :: string
  handlers :: "int \<Rightarrow> handler"
  sigmask :: "int set"
  stdin_file :: "string option"
  stdout_file :: "string option"
  cwd :: string
  children :: "int \<Rightarrow> child option"
  waited :: "int list"

definition printf :: "string \<Rightarrow> shell \<Rightarrow> shell" where
  "printf s sh = sh\<lparr>out := out sh @ s\<rparr>"

text \<open>\<open>write(STDOUT_FILENO, buf, count)\<close> on a string literal.\<close>

definition write_stdout :: "string \<Rightarrow> nat \<Rightarrow> shell \<Rightarrow> shell" where
  "write_stdout buf count sh = sh\<lparr>out := out sh @ take count buf\<rparr>"

subsection \<open>The signal handler\<close>

definition handle_sigtstp :: "int \<Rightarrow> shell \<Rightarrow> shell" where
  "handle_sigtstp signo sh =
     (let sh1 = sh\<lparr>background_global := (if background_global sh = 0 then 1 else 0)\<rparr> in
      if background_global sh1 \<noteq> 0
      then write_stdout ''\<newline>Exiting foreground-only mode\<newline>'' 30 sh1
      else write_stdout ''\<newline>Entering foreground-only mode (& is now ignored)\<newline>'' 50 sh1)"

definition register_signal_handler :: "int \<Rightarrow> handler \<Rightarrow> shell \<Rightarrow> shell" where
  "register_signal_handler signal h sh = sh\<lparr>handlers := (handlers sh)(signal := h)\<rparr>"

subsection \<open>The parsed command and the list of background children\<close>

text \<open>\<open>struct command\<close>. The array \<open>args\<close> of \<open>N_ARGS\<close> pointers is filled from index 0 and
  is \<open>NULL\<close> from the first unused index on; the list \<open>args\<close> holds the filled entries.
  \<open>input_file\<close> and \<open>output_file\<close> are \<open>None\<close> for \<open>NULL\<close>.\<close>

record command =
  args :: "string list"
  input_file :: "string option"
  output_file :: "string option"
  background :: int

definition create_command :: command where
  "create_command = \<lparr>args = [], input_file = None, output_file = None, background = 0\<rparr>"

definition insert_pid :: "int list \<Rightarrow> int \<Rightarrow> int list" where
  "insert_pid pids pid = pid # pids"

subsection \<open>The parser\<close>

text \<open>The expansion loop of \<open>parse\<close>,
  \<open>for (int i = 0; i < strlen(input); i++)\<close>: at a \<open>$\<close> followed by a \<open>$\<close> the decimal
  process identifier is appended and the second \<open>$\<close> is skipped, otherwise the character
  itself is appended. \<open>input[i + 1]\<close> at the last index reads the terminating NUL.\<close>

definition char_at :: "string \<Rightarrow> nat \<Rightarrow> char" where
  "char_at s i = (if i < length s then s ! i else CHR 0x00)"

function expand_loop :: "string \<Rightarrow> string \<Rightarrow> nat \<Rightarrow> string \<Rightarrow> error + string" where
  "expand_loop pid_str input i expanded_input =
     (if i < length input then
        (if char_at input i = CHR ''$'' \<and> char_at input (i + 1) = CHR ''$'' then
           (case strcat expanded_input pid_str of
              Inl e \<Rightarrow> Inl e
            | Inr b \<Rightarrow> expand_loop pid_str input (i + 1 + 1) b)
         else
           (case strcat expanded_input [char_at input i] of
              Inl e \<Rightarrow> Inl e
            | Inr b \<Rightarrow> expand_loop pid_str input (i + 1) b))
      else Inr expanded_input)"
  by pat_completeness auto
termination
  by (relation "measure (\<lambda>(pid_str, input, i, expanded_input). length input - i)") auto

declare expand_loop.simps [simp del]

text \<open>The state of the tokenizing loop: the command under construction, the counter
  \<open>arg_n\<close>, the \<open>mode\<close> and what the loop has printed.\<close>

record parse_state =
  cmd :: command
  arg_n :: nat
  mode :: int
  printed :: string

text \<open>The body of \<open>while (token = strtok_r(NULL, " \n", &expanded_input))\<close>. The store
  \<open>command->args[arg_n]\<close> is inside the array only for \<open>arg_n < N_ARGS\<close>.\<close>

definition parse_step :: "string \<Rightarrow> parse_state \<Rightarrow> error + parse_state" where
  "parse_step token st =
     (if token = ''<'' then Inr (st\<lparr>mode := 1\<rparr>)
      else if token = ''>'' then Inr (st\<lparr>mode := 2\<rparr>)
      else if mode st = 0 then
        (if arg_n st < N_ARGS
         then Inr (st\<lparr>cmd := (cmd st)\<lparr>args := args (cmd st) @ [token]\<rparr>, arg_n := arg_n st + 1\<rparr>)
         else Inl Args_overflow)
      else if mode st = 1 then Inr (st\<lparr>cmd := (cmd st)\<lparr>input_file := Some token\<rparr>\<rparr>)
      else if mode st = 2 then Inr (st\<lparr>cmd := (cmd st)\<lparr>output_file := Some token\<rparr>\<rparr>)
      else Inr (st\<lparr>printed := printed st @ ''Error parsing input\<newline>''\<rparr>))"

text \<open>Every call of \<open>strtok_r\<close> that returns a token moves the pointer forward, so the
  loop of \<open>parse\<close> ends.\<close>

lemma strtok_r_shorter:
  "strtok_r p = Some (token, rest) \<Longrightarrow> length rest < length p"
proof -
  assume a: "strtok_r p = Some (token, rest)"
  let ?s = "dropWhile is_delim p"
  from a have ne: "?s \<noteq> []" and r: "rest = drop 1 (dropWhile (\<lambda>c. \<not> is_delim c) ?s)"
    by (auto simp: strtok_r_def Let_def split: if_splits)
  from ne have "\<not> is_delim (hd ?s)"
    by (rule hd_dropWhile)
  with ne have "length (dropWhile (\<lambda>c. \<not> is_delim c) ?s) < length ?s"
    by (cases ?s) (auto simp: le_imp_less_Suc length_dropWhile_le)
  moreover have "length ?s \<le> length p"
    by (rule length_dropWhile_le)
  ultimately show ?thesis
    using r by simp
qed

function parse_loop :: "string \<Rightarrow> parse_state \<Rightarrow> error + parse_state" where
  "parse_loop expanded_input st =
     (case strtok_r expanded_input of
        None \<Rightarrow> Inr st
      | Some (token, rest) \<Rightarrow>
          (case parse_step token st of
             Inl e \<Rightarrow> Inl e
           | Inr st' \<Rightarrow> parse_loop rest st'))"
  by pat_completeness auto
termination
  by (relation "measure (\<lambda>(expanded_input, st). length expanded_input)")
     (auto dest: strtok_r_shorter)

declare parse_loop.simps [simp del]

text \<open>\<open>parse(input)\<close>. The process identifier \<open>getpid()\<close> and the global \<open>background\<close> are
  arguments. \<open>!strncmp(input, "#", 1)\<close> holds when the first byte of \<open>input\<close> is \<open>#\<close>.
  \<open>int i = strlen(expanded_input) - 2\<close> is negative for a string shorter than two.\<close>

definition is_comment :: "string \<Rightarrow> bool" where
  "is_comment input = (char_at (c_str input) 0 = CHR ''#'')"

definition strip_ampersand :: "int \<Rightarrow> command \<Rightarrow> string \<Rightarrow> command \<times> string" where
  "strip_ampersand background_flag command expanded_input =
     (let i = int (length expanded_input) - 2 in
      if i \<ge> 0 \<and> char_at expanded_input (nat i) = CHR ''&''
      then (command\<lparr>background := background_flag\<rparr>, expanded_input[nat i := CHR '' ''])
      else (command, expanded_input))"

definition parse :: "int \<Rightarrow> int \<Rightarrow> string \<Rightarrow> error + command" where
  "parse pid background_flag input =
     (if is_comment input then Inr create_command
      else
        (case expand_loop (dec_int pid) (c_str input) 0 [] of
           Inl e \<Rightarrow> Inl e
         | Inr expanded_input \<Rightarrow>
             (case strip_ampersand background_flag create_command expanded_input of
                (command, buf) \<Rightarrow>
                  (case parse_loop buf \<lparr>cmd = command, arg_n = 0, mode = 0, printed = []\<rparr> of
                     Inl e \<Rightarrow> Inl e
                   | Inr st \<Rightarrow> Inr (cmd st)))))"

subsection \<open>Redirection and status\<close>

definition print_status :: "int \<Rightarrow> shell \<Rightarrow> shell" where
  "print_status st sh =
     (if WIFEXITED st
      then printf (''exit value '' @ dec_int (WEXITSTATUS st) @ ''\<newline>'') sh
      else printf (''terminated by signal '' @ dec_int (WTERMSIG st) @ ''\<newline>'') sh)"

text \<open>\<open>redirect(file_name, flag, error, status)\<close>; \<open>status\<close> points to the variable
  \<open>status\<close> of \<open>main\<close>. \<open>dup2(file_descriptor, flag == (O_WRONLY | O_CREAT))\<close> replaces
  descriptor 1 for the output flags and descriptor 0 otherwise.\<close>

definition redirect :: "os \<Rightarrow> string \<Rightarrow> int \<Rightarrow> string \<Rightarrow> shell \<Rightarrow> int \<times> shell" where
  "redirect sys file_name flag error sh =
     (let file_descriptor = open_result sys file_name flag in
      if file_descriptor = -1 then
        (1, (printf (''bash: '' @ file_name @ '': No such file or directory\<newline>'') sh)\<lparr>status := 1\<rparr>)
      else
        (let target = (if flag = (O_WRONLY OR O_CREAT) then 1 else 0) in
         if dup2_result sys file_descriptor target = -1
         then (1, printf (''Error redirecting '' @ error @ ''\<newline>'') sh)
         else (0, if target = 1 then sh\<lparr>stdout_file := Some file_name\<rparr>
                  else sh\<lparr>stdin_file := Some file_name\<rparr>)))"

subsection \<open>The executor\<close>

text \<open>\<open>chdir(path)\<close>; \<open>chdir(NULL)\<close> fails and changes nothing.\<close>

definition chdir :: "os \<Rightarrow> string option \<Rightarrow> shell \<Rightarrow> shell" where
  "chdir sys path sh =
     (case path of
        None \<Rightarrow> sh
      | Some p \<Rightarrow> (case chdir_result sys (cwd sh) p of None \<Rightarrow> sh | Some d \<Rightarrow> sh\<lparr>cwd := d\<rparr>))"

text \<open>What becomes of a call of \<open>run\<close>: it returns a value to \<open>main\<close>, or the process leaves
  through \<open>exit\<close>, or \<open>execvp\<close> replaces the process image, or the call blocks for ever in
  \<open>waitpid\<close>, or \<open>execvp\<close> reads behind the end of the array \<open>args\<close> (undefined behaviour).\<close>

datatype outcome = Returns int | Exits int | Execs string "string list" | Blocks | Undefined

text \<open>\<open>sigprocmask(SIG_BLOCK, &sigtstp, NULL)\<close> and \<open>sigprocmask(SIG_UNBLOCK, &sigtstp, NULL)\<close>.
  The set \<open>sigtstp\<close> is a local variable to which \<open>SIGTSTP\<close> is added without
  \<open>sigemptyset\<close>: it holds \<open>SIGTSTP\<close> and whatever the stack held.\<close>

definition sigtstp_set :: "os \<Rightarrow> int set" where
  "sigtstp_set sys = insert SIGTSTP (uninitialised_sigset sys)"

definition sigprocmask_block :: "int set \<Rightarrow> shell \<Rightarrow> shell" where
  "sigprocmask_block s sh = sh\<lparr>sigmask := sigmask sh \<union> s\<rparr>"

definition sigprocmask_unblock :: "int set \<Rightarrow> shell \<Rightarrow> shell" where
  "sigprocmask_unblock s sh = sh\<lparr>sigmask := sigmask sh - s\<rparr>"

text \<open>The child's branch of \<open>run\<close> (\<open>case 0\<close>), from \<open>register_signal_handler(SIGTSTP, SIG_IGN)\<close>
  to \<open>exit(1)\<close>. \<open>execvp(command->args[0], command->args)\<close> reads the argument vector up to
  its first \<open>NULL\<close>: when all \<open>N_ARGS\<close> entries of \<open>args\<close> are filled the array holds no
  \<open>NULL\<close>, and \<open>execvp\<close> reads on behind it.\<close>

definition run_exec :: "os \<Rightarrow> command \<Rightarrow> shell \<Rightarrow> outcome \<times> shell" where
  "run_exec sys command sh =
     (if \<not> length (args command) < N_ARGS then (Undefined, sh)
      else if execvp_fails sys (hd (args command)) (args command)
      then (Exits 1, printf (''bash: '' @ hd (args command) @ '': Command not found\<newline>'') sh)
      else (Execs (hd (args command)) (args command), sh))"

definition run_child :: "os \<Rightarrow> command \<Rightarrow> shell \<Rightarrow> outcome \<times> shell" where
  "run_child sys command sh =
     (let sh1 = register_signal_handler SIGTSTP SIG_IGN sh;
          command1 =
            (if background command \<noteq> 0
             then command\<lparr>input_file := Some (case input_file command of None \<Rightarrow> DEV_NULL | Some f \<Rightarrow> f),
                          output_file := Some (case output_file command of None \<Rightarrow> DEV_NULL | Some f \<Rightarrow> f)\<rparr>
             else command);
          sh2 = (if background command \<noteq> 0 then sh1 else register_signal_handler SIGINT SIG_DFL sh1);
          (r_in, sh3) = (case input_file command1 of
                           None \<Rightarrow> (0, sh2)
                         | Some f \<Rightarrow> redirect sys f O_RDONLY ''input'' sh2)
      in if r_in \<noteq> 0 then (Exits 1, sh3)
         else
           (let (r_out, sh4) = (case output_file command1 of
                                  None \<Rightarrow> (0, sh3)
                                | Some f \<Rightarrow> redirect sys f (O_WRONLY OR O_CREAT) ''output'' sh3)
            in if r_out \<noteq> 0 then (Exits 1, sh4) else run_exec sys command1 sh4))"

text \<open>The parent's branch of \<open>run\<close> (\<open>default\<close>).\<close>

definition run_parent :: "os \<Rightarrow> command \<Rightarrow> int \<Rightarrow> shell \<Rightarrow> outcome \<times> shell" where
  "run_parent sys command child_pid sh =
     (if background command \<noteq> 0 then
        (Returns 1,
         printf (''background pid is '' @ dec_int child_pid @ ''\<newline>'')
           (sh\<lparr>background_pids := insert_pid (background_pids sh) child_pid\<rparr>))
      else
        (let sh1 = sigprocmask_block (sigtstp_set sys) sh in
         case waitpid_blocking sys child_pid of
           Never_returns \<Rightarrow> (Blocks, sh1)
         | Wait_failed \<Rightarrow>
             (let sh2 = (if WIFSIGNALED (status sh1) then print_status (status sh1) sh1 else sh1)
              in (Returns 1, sigprocmask_unblock (sigtstp_set sys) sh2))
         | Reaped s \<Rightarrow>
             (let sh2 = sh1\<lparr>status := s, children := (children sh1)(child_pid := None)\<rparr>;
                  sh3 = (if WIFSIGNALED (status sh2) then print_status (status sh2) sh2 else sh2)
              in (Returns 1, sigprocmask_unblock (sigtstp_set sys) sh3))))"

text \<open>\<open>run(command, status, background_pids)\<close>; both pointers point to variables of
  \<open>main\<close>, which are fields of the state. After a successful \<open>fork\<close> the parent has one
  more child.\<close>

definition run :: "os \<Rightarrow> command \<Rightarrow> shell \<Rightarrow> outcome \<times> shell" where
  "run sys command sh =
     (case args command of
        [] \<Rightarrow> (Returns 1, sh)
      | arg0 # rest \<Rightarrow>
          if arg0 = ''exit'' then (Returns 0, sh)
          else if arg0 = ''cd'' then
            (case rest of
               arg1 # _ \<Rightarrow> (Returns 1, chdir sys (Some arg1) sh)
             | [] \<Rightarrow> (Returns 1, chdir sys (getenv_HOME sys) sh))
          else if arg0 = ''status'' then (Returns 1, print_status (status sh) sh)
          else
            (let child_pid = fork_result sys in
             if child_pid = -1 then (Returns 1, printf ''Error forking process\<newline>'' sh)
             else if child_pid = 0 then run_child sys command sh
             else run_parent sys command child_pid
                    (sh\<lparr>children := (children sh)(child_pid := Some Running)\<rparr>)))"

subsection \<open>The reaper\<close>

text \<open>\<open>waitpid(pid, &status, WNOHANG)\<close>: 0 while the child runs; the process identifier,
  with the status stored and the child reaped, when it has terminated; -1, with nothing
  stored, when the process has no such child.\<close>

definition waitpid_nohang :: "int \<Rightarrow> int \<Rightarrow> shell \<Rightarrow> int \<times> int \<times> shell" where
  "waitpid_nohang pid st sh =
     (let sh1 = sh\<lparr>waited := waited sh @ [pid]\<rparr> in
      case children sh pid of
        None \<Rightarrow> (-1, st, sh1)
      | Some Running \<Rightarrow> (0, st, sh1)
      | Some (Terminated s) \<Rightarrow> (pid, s, sh1\<lparr>children := (children sh)(pid := None)\<rparr>))"

text \<open>The loop of \<open>check_background\<close>. The list is split at the pointer \<open>background_pids\<close>:
  \<open>kept\<close> holds the nodes from \<open>head\<close> up to \<open>previous\<close> (it is empty when \<open>previous\<close> is
  \<open>NULL\<close>), the second list the nodes from \<open>background_pids\<close> on; \<open>st\<close> is the local
  \<open>status\<close>. After a node is removed behind \<open>previous\<close>, \<open>background_pids = previous\<close> and the
  step \<open>background_pids = background_pids->next\<close> lead to the successor of the removed node.
  After the first node is removed, \<open>background_pids = head\<close> is the successor, and the same
  step leads to the node behind it, with the successor as \<open>previous\<close>.\<close>

fun check_loop :: "int list \<Rightarrow> int list \<Rightarrow> int \<Rightarrow> shell \<Rightarrow> int list \<times> shell" where
  "check_loop kept [] st sh = (kept, sh)"
| "check_loop kept (pid # next) st sh =
     (case waitpid_nohang pid st sh of
        (result, st1, sh1) \<Rightarrow>
          if result \<noteq> 0 then
            (let sh2 = print_status st1 (printf (''background pid '' @ dec_int pid @ '' is done: '') sh1)
             in if kept \<noteq> [] then check_loop kept next st1 sh2
                else (case next of
                        [] \<Rightarrow> ([], sh2)
                      | head # next1 \<Rightarrow> check_loop [head] next1 st1 sh2))
          else check_loop (kept @ [pid]) next st1 sh1)"

text \<open>\<open>check_background(background_pids)\<close>; \<open>st\<close> is what the uninitialised local \<open>status\<close>
  holds at entry.\<close>

definition check_background :: "int list \<Rightarrow> int \<Rightarrow> shell \<Rightarrow> int list \<times> shell" where
  "check_background pids st sh = check_loop [] pids st sh"

subsection \<open>The main loop\<close>

text \<open>The state of the shell when \<open>main\<close> enters its loop, for a shell that is started in
  the root directory and has no children.\<close>

definition main_init :: shell where
  "main_init =
     register_signal_handler SIGTSTP Handle_sigtstp
       (register_signal_handler SIGINT SIG_IGN
          \<lparr>background_global = 1, status = 0, background_pids = [], out = [],
           handlers = (\<lambda>_. SIG_DFL), sigmask = {}, stdin_file = None, stdout_file = None,
           cwd = ''/'', children = (\<lambda>_. None), waited = []\<rparr>)"

text \<open>One iteration of \<open>while (running)\<close>: \<open>input\<close> is what \<open>fgets\<close> has stored in the buffer,
  \<open>st\<close> what the local \<open>status\<close> of \<open>check_background\<close> holds. The result of \<open>run\<close> is the
  next value of \<open>running\<close>.\<close>

definition main_iteration :: "os \<Rightarrow> int \<Rightarrow> string \<Rightarrow> shell \<Rightarrow> error + outcome \<times> shell" where
  "main_iteration sys st input sh =
     (case check_background (background_pids sh) st sh of
        (pids, sh1) \<Rightarrow>
          (let sh2 = printf '': '' (sh1\<lparr>background_pids := pids\<rparr>) in
           case parse (getpid sys) (background_global sh2) (take (LEN_INPUT - 1) input) of
             Inl e \<Rightarrow> Inl e
           | Inr command \<Rightarrow> Inr (run sys command sh2)))"

section \<open>Notions for the statements\<close>

text \<open>The Foreground-only Flag of the specification is set when \<open>background\<close> is 0.\<close>

definition foreground_only :: "shell \<Rightarrow> bool" where
  "foreground_only sh = (background_global sh = 0)"

text \<open>The plans that \<open>run\<close> handles inside the shell process: the empty plan and the
  built-ins \<open>exit\<close>, \<open>cd\<close> and \<open>status\<close>.\<close>

definition builtin :: "command \<Rightarrow> bool" where
  "builtin command =
     (args command = [] \<or> hd (args command) = ''exit'' \<or> hd (args command) = ''cd'' \<or>
      hd (args command) = ''status'')"

text \<open>The kernel delivers SIGTSTP to a process: a blocked signal is not delivered (it stays
  pending); otherwise the disposition decides. \<open>handle_sigtstp\<close> runs when it is installed;
  an ignored signal does nothing; the default action stops the process and runs no code of
  the shell.\<close>

definition deliver_sigtstp :: "shell \<Rightarrow> shell" where
  "deliver_sigtstp sh =
     (if SIGTSTP \<in> sigmask sh then sh
      else (case handlers sh SIGTSTP of
              Handle_sigtstp \<Rightarrow> handle_sigtstp SIGTSTP sh
            | SIG_IGN \<Rightarrow> sh
            | SIG_DFL \<Rightarrow> sh))"

text \<open>Two program points of the foreground branch of \<open>run\<close> in the parent: the state in which
  \<open>waitpid(child_pid, status, 0)\<close> is called, after \<open>sigprocmask(SIG_BLOCK, ...)\<close>; and the
  state after the status is stored and, for a child killed by a signal, printed, before
  \<open>sigprocmask(SIG_UNBLOCK, ...)\<close> (\<open>None\<close> when the wait never returns).\<close>

definition fg_blocked :: "os \<Rightarrow> shell \<Rightarrow> shell" where
  "fg_blocked sys sh = sigprocmask_block (sigtstp_set sys) sh"

definition fg_recorded :: "os \<Rightarrow> int \<Rightarrow> shell \<Rightarrow> shell option" where
  "fg_recorded sys child_pid sh =
     (let sh1 = fg_blocked sys sh in
      case waitpid_blocking sys child_pid of
        Never_returns \<Rightarrow> None
      | Wait_failed \<Rightarrow> Some (if WIFSIGNALED (status sh1) then print_status (status sh1) sh1 else sh1)
      | Reaped s \<Rightarrow>
          (let sh2 = sh1\<lparr>status := s, children := (children sh1)(child_pid := None)\<rparr>
           in Some (if WIFSIGNALED (status sh2) then print_status (status sh2) sh2 else sh2)))"

text \<open>The expansion as a function of the line alone, without index and buffer: a \<open>$\<close>
  directly followed by a \<open>$\<close> becomes the process identifier and the scan continues behind
  the pair; every other character is copied.\<close>

fun expand_spec :: "string \<Rightarrow> string \<Rightarrow> string" where
  "expand_spec pid_str [] = []"
| "expand_spec pid_str [c] = [c]"
| "expand_spec pid_str (c # d # cs) =
     (if c = CHR ''$'' \<and> d = CHR ''$'' then pid_str @ expand_spec pid_str cs
      else c # expand_spec pid_str (d # cs))"

text \<open>The tokens that the calls of \<open>strtok_r\<close> in the loop of \<open>parse\<close> return, in order,
  and the loop body run over a list of tokens.\<close>

definition is_operator :: "string \<Rightarrow> bool" where
  "is_operator t = (t = ''<'' \<or> t = ''>'')"

function tokens :: "string \<Rightarrow> string list" where
  "tokens p = (case strtok_r p of None \<Rightarrow> [] | Some (token, rest) \<Rightarrow> token # tokens rest)"
  by pat_completeness auto
termination
  by (relation "measure length") (auto dest: strtok_r_shorter)

declare tokens.simps [simp del]

fun run_steps :: "string list \<Rightarrow> parse_state \<Rightarrow> error + parse_state" where
  "run_steps [] st = Inr st"
| "run_steps (t # ts) st =
     (case parse_step t st of Inl e \<Rightarrow> Inl e | Inr st' \<Rightarrow> run_steps ts st')"

text \<open>The three modes by name (\<open>mode\<close> is 0, 1 or 2 in the C code), and two walks over the
  tokens. In \<open>semantic_pass_sticky\<close> a file name leaves the mode as it is; in
  \<open>semantic_pass_claimed\<close> the mode returns to \<open>ARG\<close> after a file name, as the
  specification words it.\<close>

datatype pmode = ARG | EXPECT_IN | EXPECT_OUT

fun semantic_pass_sticky :: "pmode \<Rightarrow> string list \<Rightarrow> command \<Rightarrow> command" where
  "semantic_pass_sticky m [] c = c"
| "semantic_pass_sticky m (t # ts) c =
     (if t = ''<'' then semantic_pass_sticky EXPECT_IN ts c
      else if t = ''>'' then semantic_pass_sticky EXPECT_OUT ts c
      else (case m of
              ARG \<Rightarrow> semantic_pass_sticky ARG ts (c\<lparr>args := args c @ [t]\<rparr>)
            | EXPECT_IN \<Rightarrow> semantic_pass_sticky EXPECT_IN ts (c\<lparr>input_file := Some t\<rparr>)
            | EXPECT_OUT \<Rightarrow> semantic_pass_sticky EXPECT_OUT ts (c\<lparr>output_file := Some t\<rparr>)))"

fun semantic_pass_claimed :: "pmode \<Rightarrow> string list \<Rightarrow> command \<Rightarrow> command" where
  "semantic_pass_claimed m [] c = c"
| "semantic_pass_claimed m (t # ts) c =
     (if t = ''<'' then semantic_pass_claimed EXPECT_IN ts c
      else if t = ''>'' then semantic_pass_claimed EXPECT_OUT ts c
      else (case m of
              ARG \<Rightarrow> semantic_pass_claimed ARG ts (c\<lparr>args := args c @ [t]\<rparr>)
            | EXPECT_IN \<Rightarrow> semantic_pass_claimed ARG ts (c\<lparr>input_file := Some t\<rparr>)
            | EXPECT_OUT \<Rightarrow> semantic_pass_claimed ARG ts (c\<lparr>output_file := Some t\<rparr>)))"

definition mode_of :: "int \<Rightarrow> pmode" where
  "mode_of m = (if m = 0 then ARG else if m = 1 then EXPECT_IN else EXPECT_OUT)"

definition arg_tokens :: "pmode \<Rightarrow> string list \<Rightarrow> string list" where
  "arg_tokens m ts = (if m = ARG then takeWhile (\<lambda>t. \<not> is_operator t) ts else [])"

text \<open>\<open>parse\<close> without loops: the comment test, the capacity of the expansion buffer, the
  \<open>&\<close> test, the capacity of \<open>args\<close>, and the walk over the tokens.\<close>

definition parse_closed :: "string \<Rightarrow> int \<Rightarrow> string \<Rightarrow> error + command" where
  "parse_closed pid_str background_flag input =
     (if is_comment input then Inr create_command
      else if \<not> length (expand_spec pid_str (c_str input)) < LEN_INPUT then Inl Buffer_overflow
      else
        (case strip_ampersand background_flag create_command (expand_spec pid_str (c_str input)) of
           (command, buf) \<Rightarrow>
             if length (takeWhile (\<lambda>t. \<not> is_operator t) (tokens buf)) \<le> N_ARGS
             then Inr (semantic_pass_sticky ARG (tokens buf) command)
             else Inl Args_overflow))"

section \<open>The parser in closed form\<close>

lemma expand_spec_Cons:
  "expand_spec p (c # cs) =
     (if c = CHR ''$'' \<and> char_at cs 0 = CHR ''$'' then p @ expand_spec p (drop 1 cs)
      else c # expand_spec p cs)"
  by (cases cs) (auto simp: char_at_def)

lemma expand_loop_eq:
  "length buf < LEN_INPUT \<Longrightarrow>
   expand_loop p input i buf =
     (if length buf + length (expand_spec p (drop i input)) < LEN_INPUT
      then Inr (buf @ expand_spec p (drop i input)) else Inl Buffer_overflow)"
proof (induction p input i buf rule: expand_loop.induct)
  case (1 p input i buf)
  show ?case
  proof (cases "i < length input")
    case False
    then show ?thesis
      using "1.prems" by (simp add: expand_loop.simps)
  next
    case True
    then have d: "drop i input = input ! i # drop (Suc i) input"
      by (simp add: Cons_nth_drop_Suc)
    have c1: "char_at input (i + 1) = char_at (drop (Suc i) input) 0"
      by (auto simp: char_at_def)
    have c0: "char_at input i = input ! i"
      using True by (simp add: char_at_def)
    show ?thesis
    proof (cases "char_at input i = CHR ''$'' \<and> char_at input (i + 1) = CHR ''$''")
      case dollar: True
      show ?thesis
      proof (cases "length buf + length p < LEN_INPUT")
        case fits: True
        then show ?thesis
          using True dollar "1.IH"(1)[of "buf @ p"] c0 c1
          by (subst expand_loop.simps) (simp add: strcat_def d expand_spec_Cons)
      next
        case False
        then show ?thesis
          using True dollar c0 c1
          by (subst expand_loop.simps) (simp add: strcat_def d expand_spec_Cons)
      qed
    next
      case nodollar: False
      show ?thesis
      proof (cases "length buf + 1 < LEN_INPUT")
        case fits: True
        then show ?thesis
          using True nodollar "1.IH"(2)[of "buf @ [char_at input i]"] c0 c1
          by (subst expand_loop.simps) (auto simp add: strcat_def d expand_spec_Cons)
      next
        case False
        then show ?thesis
          using True nodollar c0 c1
          by (subst expand_loop.simps) (auto simp add: strcat_def d expand_spec_Cons)
      qed
    qed
  qed
qed

text \<open>A line without two adjacent \<open>$\<close> is its own expansion: a single \<open>$\<close> is kept, and
  nothing else is substituted.\<close>

lemma expand_spec_no_pair:
  "(\<forall>i. Suc i < length s \<longrightarrow> s ! i \<noteq> CHR ''$'' \<or> s ! Suc i \<noteq> CHR ''$'') \<Longrightarrow>
   expand_spec p s = s"
proof (induction p s rule: expand_spec.induct)
  case (3 p c d cs)
  from "3.prems"[rule_format, of 0] have nd: "\<not> (c = CHR ''$'' \<and> d = CHR ''$'')"
    by auto
  have "\<forall>i. Suc i < length (d # cs) \<longrightarrow> (d # cs) ! i \<noteq> CHR ''$'' \<or> (d # cs) ! Suc i \<noteq> CHR ''$''"
    using "3.prems"[rule_format, of "Suc _"] by auto
  with "3.IH"(2) nd show ?case by auto
qed simp_all

lemma expand_loop_Inr:
  assumes "expand_loop p input 0 [] = Inr e"
  shows "e = expand_spec p input" and "length (expand_spec p input) < LEN_INPUT"
proof -
  have "length ([]::string) < LEN_INPUT" by (simp add: LEN_INPUT_def)
  from expand_loop_eq[OF this, of p input 0] assms
  show "e = expand_spec p input" and "length (expand_spec p input) < LEN_INPUT"
    by (auto split: if_splits)
qed

lemma parse_loop_tokens: "parse_loop p st = run_steps (tokens p) st"
proof (induction p st rule: parse_loop.induct)
  case (1 p st)
  show ?case
  proof (cases "strtok_r p")
    case None
    then show ?thesis
      by (simp add: parse_loop.simps tokens.simps)
  next
    case (Some a)
    obtain token rest where a: "a = (token, rest)" by (cases a)
    show ?thesis
    proof (cases "parse_step token st")
      case (Inl e)
      then show ?thesis
        using Some a by (simp add: parse_loop.simps[of p] tokens.simps[of p])
    next
      case (Inr st')
      then show ?thesis
        using Some a "1.IH"[OF Some a[symmetric] Inr]
        by (simp add: parse_loop.simps[of p] tokens.simps[of p])
    qed
  qed
qed

lemma args_semantic_pass_sticky:
  "args (semantic_pass_sticky m ts c) = args c @ arg_tokens m ts"
  by (induction m ts c rule: semantic_pass_sticky.induct)
     (auto simp: arg_tokens_def is_operator_def split: pmode.splits)

lemma background_semantic_pass_sticky:
  "background (semantic_pass_sticky m ts c) = background c"
  by (induction m ts c rule: semantic_pass_sticky.induct) (auto split: pmode.splits)

lemma run_steps_cmd:
  "mode st \<in> {0, 1, 2} \<Longrightarrow> arg_n st = length (args (cmd st)) \<Longrightarrow>
   length (args (cmd st)) \<le> N_ARGS \<Longrightarrow>
   map_sum id cmd (run_steps ts st) =
     (if length (args (cmd st)) + length (arg_tokens (mode_of (mode st)) ts) \<le> N_ARGS
      then Inr (semantic_pass_sticky (mode_of (mode st)) ts (cmd st))
      else Inl Args_overflow)"
proof (induction ts arbitrary: st)
  case Nil
  then show ?case by (simp add: arg_tokens_def)
next
  case (Cons t ts)
  consider (lt) "t = ''<''" | (gt) "t = ''>''"
    | (arg) "\<not> is_operator t" "mode st = 0" "arg_n st < N_ARGS"
    | (full) "\<not> is_operator t" "mode st = 0" "\<not> arg_n st < N_ARGS"
    | (inp) "\<not> is_operator t" "mode st = 1"
    | (outp) "\<not> is_operator t" "mode st = 2"
    using Cons.prems(1) by (auto simp: is_operator_def)
  then show ?case
  proof cases
    case lt
    then show ?thesis
      using Cons.prems Cons.IH[of "st\<lparr>mode := 1\<rparr>"]
      by (simp add: parse_step_def mode_of_def arg_tokens_def is_operator_def)
  next
    case gt
    then show ?thesis
      using Cons.prems Cons.IH[of "st\<lparr>mode := 2\<rparr>"]
      by (simp add: parse_step_def mode_of_def arg_tokens_def is_operator_def)
  next
    case arg
    then show ?thesis
      using Cons.prems
        Cons.IH[of "st\<lparr>cmd := (cmd st)\<lparr>args := args (cmd st) @ [t]\<rparr>, arg_n := arg_n st + 1\<rparr>"]
      by (simp add: parse_step_def mode_of_def arg_tokens_def is_operator_def)
  next
    case full
    then show ?thesis
      using Cons.prems
      by (simp add: parse_step_def mode_of_def arg_tokens_def is_operator_def)
  next
    case inp
    then show ?thesis
      using Cons.prems Cons.IH[of "st\<lparr>cmd := (cmd st)\<lparr>input_file := Some t\<rparr>\<rparr>"]
      by (simp add: parse_step_def mode_of_def arg_tokens_def is_operator_def)
  next
    case outp
    then show ?thesis
      using Cons.prems Cons.IH[of "st\<lparr>cmd := (cmd st)\<lparr>output_file := Some t\<rparr>\<rparr>"]
      by (simp add: parse_step_def mode_of_def arg_tokens_def is_operator_def)
  qed
qed

lemma run_steps_printed:
  "mode st \<in> {0, 1, 2} \<Longrightarrow> run_steps ts st = Inr st' \<Longrightarrow> printed st' = printed st"
proof (induction ts arbitrary: st)
  case Nil
  then show ?case by simp
next
  case (Cons t ts)
  from Cons.prems obtain st1 where s1: "parse_step t st = Inr st1" and r: "run_steps ts st1 = Inr st'"
    by (auto split: sum.splits)
  from s1 Cons.prems(1) have "mode st1 \<in> {0, 1, 2}" "printed st1 = printed st"
    by (auto simp: parse_step_def split: if_splits)
  with Cons.IH[OF _ r] show ?case by simp
qed

lemma case_sum_cmd:
  "(case x of Inl e \<Rightarrow> Inl e | Inr st \<Rightarrow> Inr (cmd st)) = map_sum id cmd x"
  by (cases x) auto

lemma args_strip_ampersand: "args (fst (strip_ampersand b create_command e)) = []"
  by (simp add: strip_ampersand_def Let_def create_command_def)

lemma strip_ampersand_cases:
  "strip_ampersand b create_command e =
     (if 2 \<le> length e \<and> e ! (length e - 2) = CHR ''&''
      then (create_command\<lparr>background := b\<rparr>, e[length e - 2 := CHR '' ''])
      else (create_command, e))"
proof (cases "2 \<le> length e")
  case True
  then have "nat (int (length e) - 2) = length e - 2" "int (length e) - 2 \<ge> 0" "length e - 2 < length e"
    by auto
  then show ?thesis
    using True by (simp add: strip_ampersand_def Let_def char_at_def)
next
  case False
  then show ?thesis
    by (auto simp: strip_ampersand_def Let_def)
qed

lemma parse_eq: "parse pid background_flag input = parse_closed (dec_int pid) background_flag input"
proof -
  have "length ([]::string) < LEN_INPUT" by (simp add: LEN_INPUT_def)
  note e = expand_loop_eq[OF this, of "dec_int pid" "c_str input" 0, simplified]
  show ?thesis
    unfolding parse_def parse_closed_def e case_sum_cmd parse_loop_tokens
    apply (clarsimp split: prod.splits)
    subgoal for command buf
      using run_steps_cmd[of "\<lparr>cmd = command, arg_n = 0, mode = 0, printed = []\<rparr>" "tokens buf"]
        args_strip_ampersand[of background_flag "expand_spec (dec_int pid) (c_str input)"]
      by (auto simp: mode_of_def arg_tokens_def)
    done
qed

subsection \<open>Tokens\<close>

lemma tokens_Nil: "tokens [] = []"
  by (simp add: tokens.simps strtok_r_def)

lemma tokens_delim: "is_delim c \<Longrightarrow> tokens (c # p) = tokens p"
  by (simp add: tokens.simps[of "c # p"] tokens.simps[of p] strtok_r_def)

lemma tokens_nondelim:
  "\<not> is_delim c \<Longrightarrow>
   tokens (c # p) =
     (c # takeWhile (\<lambda>c. \<not> is_delim c) p) # tokens (drop 1 (dropWhile (\<lambda>c. \<not> is_delim c) p))"
  by (simp add: tokens.simps[of "c # p"] strtok_r_def)




subsection \<open>Evaluation on concrete lines\<close>

lemma dec_int_4242: "dec_int 4242 = ''4242''"
  by (simp add: dec_int_def dec_nat.simps digit_char_def)

lemma dec_int_digit: "0 \<le> i \<Longrightarrow> i < 10 \<Longrightarrow> dec_int i = [digit_char (nat i)]"
  by (simp add: dec_int_def dec_nat.simps)

lemmas parse_eval = parse_eq parse_closed_def is_comment_def c_str_def char_at_def
  strip_ampersand_def Let_def create_command_def LEN_INPUT_def N_ARGS_def
  tokens_Nil tokens_delim tokens_nondelim is_delim_def is_operator_def dec_int_4242

lemma print_status_1: "print_status 1 sh = sh\<lparr>out := out sh @ ''terminated by signal 1\<newline>''\<rparr>"
  by (simp add: print_status_def WIFEXITED_def WTERMSIG_def printf_def dec_int_digit digit_char_def)

lemma print_status_0: "print_status 0 sh = sh\<lparr>out := out sh @ ''exit value 0\<newline>''\<rparr>"
  by (simp add: print_status_def WIFEXITED_def WTERMSIG_def WEXITSTATUS_def printf_def
      dec_int_digit digit_char_def)

subsection \<open>Lines of \<open>$$\<close> pairs\<close>

lemma c_str_dollars: "c_str (concat (replicate n ''$$'') @ s) = concat (replicate n ''$$'') @ c_str s"
  by (induction n) (simp_all add: c_str_def)

lemma expand_spec_dollars:
  "expand_spec p (concat (replicate n ''$$'') @ s) = concat (replicate n p) @ expand_spec p s"
  by (induction n) simp_all

lemma length_concat_replicate: "length (concat (replicate n p)) = n * length p"
  by (induction n) simp_all

lemma parse_dollars_overflow:
  assumes "0 < n" "LEN_INPUT \<le> n * length (dec_int pid)"
  shows "parse pid background_flag (concat (replicate n ''$$'') @ s) = Inl Buffer_overflow"
proof -
  obtain m where n: "n = Suc m" using assms(1) by (cases n) auto
  let ?line = "concat (replicate n ''$$'') @ s"
  have c: "c_str ?line = concat (replicate n ''$$'') @ c_str s"
    by (rule c_str_dollars)
  have nc: "\<not> is_comment ?line"
    unfolding is_comment_def c by (simp add: n char_at_def)
  have "length (expand_spec (dec_int pid) (c_str ?line)) =
          n * length (dec_int pid) + length (expand_spec (dec_int pid) (c_str s))"
    unfolding c by (simp add: expand_spec_dollars length_concat_replicate)
  then show ?thesis
    using assms(2) nc by (simp add: parse_eq parse_closed_def)
qed

section \<open>The executor and the reaper\<close>

text \<open>C10\<close>

lemma run_child_not_Returns: "args command \<noteq> [] \<Longrightarrow> fst (run_child sys command sh) \<noteq> Returns r"
  by (auto simp: run_child_def run_exec_def Let_def split: prod.splits option.splits)

lemma run_parent_Returns:
  "fst (run_parent sys command child_pid sh) =
     (if background command = 0 \<and> waitpid_blocking sys child_pid = Never_returns
      then Blocks else Returns 1)"
  by (auto simp: run_parent_def Let_def split: wait_outcome.splits)

lemma fst_run:
  "fst (run sys command sh) =
     (if args command = [] then Returns 1
      else if hd (args command) = ''exit'' then Returns 0
      else if hd (args command) = ''cd'' \<or> hd (args command) = ''status'' then Returns 1
      else if fork_result sys = - 1 then Returns 1
      else if fork_result sys = 0 then fst (run_child sys command sh)
      else fst (run_parent sys command (fork_result sys)
                  (sh\<lparr>children := (children sh)(fork_result sys := Some Running)\<rparr>)))"
  by (auto simp: run_def Let_def split: list.splits)

lemma background_global_print_status [simp]:
  "background_global (print_status st sh) = background_global sh"
  by (simp add: print_status_def printf_def)

lemma background_global_waitpid_nohang:
  "waitpid_nohang pid st sh = (result, st1, sh1) \<Longrightarrow> background_global sh1 = background_global sh"
  by (auto simp: waitpid_nohang_def Let_def split: option.splits child.splits)

lemma background_global_check_loop:
  "check_loop kept pids st sh = (pids', sh') \<Longrightarrow> background_global sh' = background_global sh"
proof (induction kept pids st sh arbitrary: pids' sh' rule: check_loop.induct)
  case (1 kept st sh)
  then show ?case by simp
next
  case (2 kept pid "next" st sh)
  obtain result st1 sh1 where w: "waitpid_nohang pid st sh = (result, st1, sh1)"
    by (cases "waitpid_nohang pid st sh") auto
  note b = background_global_waitpid_nohang[OF w]
  let ?sh2 = "print_status st1 (printf (''background pid '' @ dec_int pid @ '' is done: '') sh1)"
  have b2: "background_global ?sh2 = background_global sh"
    using b by (simp add: printf_def)
  show ?case
  proof (cases "result = 0")
    case True
    with "2.prems" w have "check_loop (kept @ [pid]) next st1 sh1 = (pids', sh')"
      by simp
    from "2.IH"(3)[OF w[symmetric] refl _ this] True b show ?thesis by simp
  next
    case False
    show ?thesis
    proof (cases "kept = []")
      case k: False
      with "2.prems" w False have "check_loop kept next st1 ?sh2 = (pids', sh')"
        by (simp add: Let_def)
      from "2.IH"(1)[OF w[symmetric] refl False refl k this] b2 show ?thesis by simp
    next
      case k: True
      show ?thesis
      proof (cases "next")
        case Nil
        with "2.prems" w False k have "sh' = ?sh2" by (simp add: Let_def)
        with b2 show ?thesis by simp
      next
        case (Cons h n1)
        with "2.prems" w False k have "check_loop [h] n1 st1 ?sh2 = (pids', sh')"
          by (simp add: Let_def)
        from "2.IH"(2)[OF w[symmetric] refl False refl _ Cons this] k b2 show ?thesis by simp
      qed
    qed
  qed
qed

lemma main_iteration_stops:
  assumes "main_iteration sys st input sh = Inr (Returns 0, sh')"
  shows "\<exists>command. parse (getpid sys) (background_global sh) (take (LEN_INPUT - 1) input) = Inr command
           \<and> args command \<noteq> [] \<and> hd (args command) = ''exit''"
proof -
  obtain pids sh1 where c: "check_background (background_pids sh) st sh = (pids, sh1)"
    by (cases "check_background (background_pids sh) st sh") auto
  then have b: "background_global sh1 = background_global sh"
    by (auto simp: check_background_def dest: background_global_check_loop)
  let ?sh2 = "printf '': '' (sh1\<lparr>background_pids := pids\<rparr>)"
  have b2: "background_global ?sh2 = background_global sh"
    using b by (simp add: printf_def)
  from assms c obtain command where
    p: "parse (getpid sys) (background_global sh) (take (LEN_INPUT - 1) input) = Inr command"
    and r: "run sys command ?sh2 = (Returns 0, sh')"
    by (auto simp: main_iteration_def Let_def b2 split: sum.splits)
  from r have "fst (run sys command ?sh2) = Returns 0" by simp
  then have "args command \<noteq> [] \<and> hd (args command) = ''exit''"
    using run_child_not_Returns[of command sys ?sh2 0]
    by (auto simp: fst_run run_parent_Returns split: if_splits)
  with p show ?thesis by blast
qed

text \<open>The foreground branch of the parent, through its two program points.\<close>

lemma run_parent_foreground:
  "background command = 0 \<Longrightarrow>
   run_parent sys command child_pid sh =
     (case fg_recorded sys child_pid sh of
        None \<Rightarrow> (Blocks, fg_blocked sys sh)
      | Some sh3 \<Rightarrow> (Returns 1, sigprocmask_unblock (sigtstp_set sys) sh3))"
  by (simp add: run_parent_def fg_recorded_def fg_blocked_def Let_def split: wait_outcome.splits)

lemma sigmask_print_status [simp]: "sigmask (print_status st sh) = sigmask sh"
  by (simp add: print_status_def printf_def)

lemma fg_blocked_fields:
  "SIGTSTP \<in> sigmask (fg_blocked sys sh)" "background_global (fg_blocked sys sh) = background_global sh"
  "out (fg_blocked sys sh) = out sh"
  by (simp_all add: fg_blocked_def sigprocmask_block_def sigtstp_set_def)

lemma status_print_status [simp]: "status (print_status st sh) = status sh"
  by (simp add: print_status_def printf_def)

lemma fg_recorded_fields:
  assumes "fg_recorded sys child_pid sh = Some sh3"
  shows "SIGTSTP \<in> sigmask sh3" "background_global sh3 = background_global sh"
    "out sh3 = out (if WIFSIGNALED (status sh3) then print_status (status sh3) sh else sh)"
proof -
  show "SIGTSTP \<in> sigmask sh3" "background_global sh3 = background_global sh"
    using assms fg_blocked_fields[of sys sh]
    by (auto simp: fg_recorded_def Let_def split: wait_outcome.splits if_splits)
  show "out sh3 = out (if WIFSIGNALED (status sh3) then print_status (status sh3) sh else sh)"
    using assms
    by (auto simp: fg_recorded_def Let_def fg_blocked_def sigprocmask_block_def
        print_status_def printf_def split: wait_outcome.splits if_splits)
qed

lemma deliver_sigtstp_blocked: "SIGTSTP \<in> sigmask sh \<Longrightarrow> deliver_sigtstp sh = sh"
  by (simp add: deliver_sigtstp_def)

lemma main_init_fields:
  "SIGTSTP \<notin> sigmask main_init" "handlers main_init SIGTSTP = Handle_sigtstp"
  "background_global main_init = 1" "out main_init = []" "status main_init = 0"
  by (simp_all add: main_init_def register_signal_handler_def SIGTSTP_def SIGINT_def)

lemma WIFSIGNALED_256: "\<not> WIFSIGNALED 256"
  by (simp add: WIFSIGNALED_def signed_char_def)

text \<open>A sweep calls \<open>waitpid\<close> on identifiers of the list only, in the order of the list,
  and on each node at most once.\<close>

lemma waited_waitpid_nohang:
  "waitpid_nohang pid st sh = (result, st1, sh1) \<Longrightarrow> waited sh1 = waited sh @ [pid]"
  by (auto simp: waitpid_nohang_def Let_def split: option.splits child.splits)

lemma waited_print_status [simp]: "waited (print_status st sh) = waited sh"
  by (simp add: print_status_def printf_def)

lemma waited_check_loop:
  "check_loop kept pids st sh = (pids', sh') \<Longrightarrow>
   \<exists>ws. waited sh' = waited sh @ ws \<and> subseq ws pids"
proof (induction kept pids st sh arbitrary: pids' sh' rule: check_loop.induct)
  case (1 kept st sh)
  then show ?case by simp
next
  case (2 kept pid "next" st sh)
  obtain result st1 sh1 where w: "waitpid_nohang pid st sh = (result, st1, sh1)"
    by (cases "waitpid_nohang pid st sh") auto
  note b = waited_waitpid_nohang[OF w]
  let ?sh2 = "print_status st1 (printf (''background pid '' @ dec_int pid @ '' is done: '') sh1)"
  have b2: "waited ?sh2 = waited sh @ [pid]"
    using b by (simp add: printf_def)
  show ?case
  proof (cases "result = 0")
    case True
    with "2.prems" w have "check_loop (kept @ [pid]) next st1 sh1 = (pids', sh')"
      by simp
    from "2.IH"(3)[OF w[symmetric] refl _ this] True b show ?thesis by auto
  next
    case False
    show ?thesis
    proof (cases "kept = []")
      case k: False
      with "2.prems" w False have "check_loop kept next st1 ?sh2 = (pids', sh')"
        by (simp add: Let_def)
      from "2.IH"(1)[OF w[symmetric] refl False refl k this] b2 show ?thesis by auto
    next
      case k: True
      show ?thesis
      proof (cases "next")
        case Nil
        with "2.prems" w False k have "sh' = ?sh2" by (simp add: Let_def)
        with b2 Nil show ?thesis by simp
      next
        case (Cons h n1)
        with "2.prems" w False k have "check_loop [h] n1 st1 ?sh2 = (pids', sh')"
          by (simp add: Let_def)
        from "2.IH"(2)[OF w[symmetric] refl False refl _ Cons this] k
        obtain ws where ws: "waited sh' = waited ?sh2 @ ws" "subseq ws n1" by auto
        then have "waited sh' = waited sh @ (pid # ws)" "subseq (pid # ws) (pid # h # n1)"
          using b2 by (auto intro: subseq_Cons2' list_emb_Cons)
        then show ?thesis using Cons by blast
      qed
    qed
  qed
qed

lemma check_background_at_most_once:
  assumes "check_background pids st sh = (pids', sh')" "distinct pids"
  shows "\<exists>ws. waited sh' = waited sh @ ws \<and> distinct ws \<and> set ws \<subseteq> set pids"
proof -
  from assms(1) obtain ws where "waited sh' = waited sh @ ws" "subseq ws pids"
    unfolding check_background_def by (auto dest: waited_check_loop)
  moreover from this obtain N where "ws = nths pids N"
    by (auto simp: subseq_conv_nths)
  ultimately show ?thesis
    using assms(2) by (auto dest: list_emb_set)
qed

section \<open>The claims\<close>

text \<open>Claim C1, amended. For every input line that is not a comment and whose expansion fits
  the buffer, the Parser's semantic pass walks the tokens under a three-state mode: the token
  \<open><\<close> switches to EXPECT_IN and \<open>>\<close> to EXPECT_OUT; any other token in ARG mode is appended to
  argv; a token arriving in EXPECT_IN (resp. EXPECT_OUT) sets input_file (resp. output_file)
  and the mode stays EXPECT_IN (resp. EXPECT_OUT). So argv is exactly the tokens before the
  first \<open><\<close> or \<open>>\<close>, and a token that follows a redirection file name overwrites that file
  name. The Parser returns this plan when argv fits the \<open>N_ARGS\<close> entries of \<open>args\<close>.\<close>

theorem parse_walk:
  assumes "\<not> is_comment input"
    and "expand_loop (dec_int pid) (c_str input) 0 [] = Inr e"
    and "strip_ampersand background_flag create_command e = (command, buf)"
  shows "parse pid background_flag input =
           (if length (takeWhile (\<lambda>t. \<not> is_operator t) (tokens buf)) \<le> N_ARGS
            then Inr (semantic_pass_sticky ARG (tokens buf) command)
            else Inl Args_overflow)
         \<and> args (semantic_pass_sticky ARG (tokens buf) command) =
             takeWhile (\<lambda>t. \<not> is_operator t) (tokens buf)"
proof -
  note e = expand_loop_Inr[OF assms(2)]
  have "args command = []"
    using args_strip_ampersand[of background_flag e] assms(3) by simp
  then show ?thesis
    using assms(1,3) e
    by (simp add: parse_eq parse_closed_def args_semantic_pass_sticky arg_tokens_def)
qed

theorem parse_walk_witness:
  "parse 4242 1 ''c < i x > o y\<newline>'' =
     Inr \<lparr>args = [''c''], input_file = Some ''x'', output_file = Some ''y'', background = 0\<rparr>"
proof -
  have h1: "\<not> is_comment ''c < i x > o y\<newline>''"
    by (simp add: is_comment_def c_str_def char_at_def)
  have h2: "expand_loop (dec_int 4242) (c_str ''c < i x > o y\<newline>'') 0 [] = Inr ''c < i x > o y\<newline>''"
    by (simp add: expand_loop_eq LEN_INPUT_def c_str_def)
  have h3: "strip_ampersand 1 create_command ''c < i x > o y\<newline>'' = (create_command, ''c < i x > o y\<newline>'')"
    by (simp add: strip_ampersand_def char_at_def)
  from parse_walk[OF h1 h2 h3] show ?thesis
    by (simp add: tokens_Nil tokens_delim tokens_nondelim is_delim_def is_operator_def
        N_ARGS_def create_command_def)
qed

text \<open>Claim C1 as stated fails: for the line \<open>"c < i x\n"\<close> the Parser returns argv \<open>["c"]\<close>
  and input_file \<open>x\<close>, where a walk whose mode returns to ARG after the file name \<open>i\<close> gives
  argv \<open>["c", "x"]\<close> and input_file \<open>i\<close>.\<close>

theorem parse_mode_stays:
  "parse 4242 1 ''c < i x\<newline>'' =
     Inr \<lparr>args = [''c''], input_file = Some ''x'', output_file = None, background = 0\<rparr>
   \<and> semantic_pass_claimed ARG (tokens ''c < i x\<newline>'') create_command =
     \<lparr>args = [''c'', ''x''], input_file = Some ''i'', output_file = None, background = 0\<rparr>
   \<and> parse 4242 1 ''c < i x\<newline>'' \<noteq>
     Inr (semantic_pass_claimed ARG (tokens ''c < i x\<newline>'') create_command)"
  by (simp add: parse_eval)

text \<open>Claim C2, amended. For every expanded input line whose second-to-last character is
  \<open>&\<close>, the Parser sets background to the global flag (true in normal mode, false when the
  Foreground-only Flag is set) and overwrites that character with a space before the tokens
  are read; for every other line background stays false. Every other \<open>&\<close> stays in the
  line: a bare \<open>&\<close> token before the first \<open><\<close> or \<open>>\<close> is an element of argv, also when it is
  the last token of the line.\<close>

theorem parse_background_marker:
  assumes "\<not> is_comment input"
    and "expand_loop (dec_int pid) (c_str input) 0 [] = Inr e"
    and "parse pid background_flag input = Inr c"
  shows "(if 2 \<le> length e \<and> e ! (length e - 2) = CHR ''&''
          then background c = background_flag \<and>
               args c = takeWhile (\<lambda>t. \<not> is_operator t) (tokens (e[length e - 2 := CHR '' '']))
          else background c = 0 \<and>
               args c = takeWhile (\<lambda>t. \<not> is_operator t) (tokens e))
         \<and> (background_flag = 0 \<longrightarrow> background c = 0)"
proof -
  note e = expand_loop_Inr[OF assms(2)]
  from assms(1,3) e have
    "c = semantic_pass_sticky ARG (tokens (snd (strip_ampersand background_flag create_command e)))
           (fst (strip_ampersand background_flag create_command e))"
    by (auto simp: parse_eq parse_closed_def split: prod.splits if_splits)
  moreover have "args create_command = []" "background create_command = 0"
    by (simp_all add: create_command_def)
  ultimately show ?thesis
    by (simp add: strip_ampersand_cases args_semantic_pass_sticky arg_tokens_def
        background_semantic_pass_sticky)
qed

theorem parse_background_marker_witness:
  "parse 4242 1 ''& s &\<newline>'' =
     Inr \<lparr>args = [''&'', ''s''], input_file = None, output_file = None, background = 1\<rparr>
   \<and> parse 4242 0 ''& s &\<newline>'' =
     Inr \<lparr>args = [''&'', ''s''], input_file = None, output_file = None, background = 0\<rparr>"
proof -
  have h1: "\<not> is_comment ''& s &\<newline>''"
    by (simp add: is_comment_def c_str_def char_at_def)
  have h2: "expand_loop (dec_int 4242) (c_str ''& s &\<newline>'') 0 [] = Inr ''& s &\<newline>''"
    by (simp add: expand_loop_eq LEN_INPUT_def c_str_def)
  have p1: "parse 4242 1 ''& s &\<newline>'' =
     Inr \<lparr>args = [''&'', ''s''], input_file = None, output_file = None, background = 1\<rparr>"
    by (simp add: parse_eval)
  have p0: "parse 4242 0 ''& s &\<newline>'' =
     Inr \<lparr>args = [''&'', ''s''], input_file = None, output_file = None, background = 0\<rparr>"
    by (simp add: parse_eval)
  from parse_background_marker[OF h1 h2 p1] parse_background_marker[OF h1 h2 p0] p1 p0
  show ?thesis by simp
qed

text \<open>Claim C2 as stated fails: the final non-whitespace token of \<open>"ls & \n"\<close> is a bare
  \<open>&\<close>, but the second-to-last character is a space; background stays false and \<open>&\<close> is the
  second element of argv.\<close>

theorem parse_ampersand_before_space:
  "parse 4242 1 ''ls & \<newline>'' =
     Inr \<lparr>args = [''ls'', ''&''], input_file = None, output_file = None, background = 0\<rparr>"
  by (simp add: parse_eval)

text \<open>Claim C3, amended. For every raw input line whose first character is \<open>#\<close>, the Parser
  returns the empty Command Plan: argv has length 0, input_file and output_file are unset and
  background is false, whatever the rest of the line, the process identifier and the
  Foreground-only Flag are.\<close>

theorem parse_hash_first:
  "parse pid background_flag (CHR ''#'' # rest) =
     Inr \<lparr>args = [], input_file = None, output_file = None, background = 0\<rparr>"
  by (simp add: parse_def is_comment_def c_str_def char_at_def create_command_def)

theorem parse_hash_first_witness:
  "parse 4242 1 ''#x y\<newline>'' =
     Inr \<lparr>args = [], input_file = None, output_file = None, background = 0\<rparr>"
  using parse_hash_first[of 4242 1 "''x y\<newline>''"] by simp

text \<open>Claim C3 as stated fails: in the line \<open>" #x\n"\<close> the first non-whitespace character is
  \<open>#\<close>, but the first character is a space, \<open>strncmp(input, "#", 1)\<close> is not 0, and the
  Parser returns a plan whose argv is \<open>["#x"]\<close>.\<close>

theorem parse_hash_after_space:
  "parse 4242 1 '' #x\<newline>'' =
     Inr \<lparr>args = [''#x''], input_file = None, output_file = None, background = 0\<rparr>"
  by (simp add: parse_eval)

text \<open>Claim C4 says that every sweep of \<open>check_background\<close> performs a non-blocking wait for
  each identifier in the Background Registry. With the Registry \<open>[8, 7]\<close> and both children
  terminated with status 0, the sweep waits for 8 only: it prints the line for 8, removes 8,
  and returns the Registry \<open>[7]\<close>; 7 was not waited for, and stays a terminated child that
  is not reaped. After the first node is removed, \<open>background_pids = head\<close> already is its
  successor, and the step to \<open>background_pids->next\<close> at the end of the loop body passes
  over it.\<close>

theorem check_background_skips:
  "check_background [8, 7] st
     (main_init\<lparr>background_pids := [8, 7],
                children := (\<lambda>_. None)(7 := Some (Terminated 0), 8 := Some (Terminated 0))\<rparr>) =
   ([7],
    main_init\<lparr>background_pids := [8, 7],
               children := (\<lambda>_. None)(7 := Some (Terminated 0)),
               waited := [8],
               out := ''background pid 8 is done: exit value 0\<newline>''\<rparr>)"
  by (simp add: check_background_def waitpid_nohang_def Let_def printf_def print_status_0
      dec_int_digit digit_char_def main_init_def register_signal_handler_def fun_upd_twist)

text \<open>Claim C5 says that \<open>redirect\<close>, when \<open>open\<close> fails, writes the diagnostic, sets Last
  Status to a value that the Status Formatter prints as \<open>exit value 1\<close>, and returns 1. The
  code writes the diagnostic and returns 1, but the value it stores is the integer 1, and
  \<open>print_status\<close> prints that wait status as \<open>terminated by signal 1\<close>: the wait status of a
  child that left with \<open>exit(1)\<close> is 256.\<close>

theorem redirect_open_failure:
  "redirect (sys\<lparr>open_result := \<lambda>_ _. - 1\<rparr>) file_name flag err sh =
     (1, sh\<lparr>out := out sh @ ''bash: '' @ file_name @ '': No such file or directory\<newline>'',
            status := 1\<rparr>) \<and>
   print_status (status (snd (redirect (sys\<lparr>open_result := \<lambda>_ _. - 1\<rparr>) file_name flag err sh))) sh' =
     sh'\<lparr>out := out sh' @ ''terminated by signal 1\<newline>''\<rparr>"
  by (simp add: redirect_def printf_def print_status_1)

text \<open>Claim C6 says that for every input line that is not a comment every \<open>$$\<close> is replaced
  by the process identifier. For the line of 1000 pairs \<open>$$\<close> and a newline (2001 characters,
  which \<open>fgets\<close> reads whole) and the process identifier 4242 the expansion has 4001
  characters: from the 513th on, every \<open>strcat\<close> writes behind the 2049 bytes of
  \<open>expanded_input\<close>, and \<open>parse\<close> has no defined result. (For the lines whose expansion fits
  the buffer, \<open>expand_loop_eq\<close> shows that the loop replaces every pair \<open>$$\<close>, from left to
  right, and copies every other character.)\<close>

theorem parse_expansion_overflow:
  "parse 4242 1 (concat (replicate 1000 ''$$'') @ ''\<newline>'') = Inl Buffer_overflow"
  by (rule parse_dollars_overflow) (simp_all add: dec_int_4242 LEN_INPUT_def)




text \<open>Claim C8, amended. Whenever the Executor waits synchronously on a foreground child,
  SIGTSTP is blocked on the shell process before the wait and unblocked immediately after the
  child's status is recorded (and, for a child killed by a signal, printed). From the call of
  \<open>sigprocmask(SIG_BLOCK, ...)\<close> to the call of \<open>sigprocmask(SIG_UNBLOCK, ...)\<close> no SIGTSTP is
  delivered: the Foreground-only Flag at the recording of the status is the flag at the
  call of \<open>sigprocmask(SIG_BLOCK, ...)\<close>, and nothing but the status line is written. When
  the wait never returns, SIGTSTP stays blocked.\<close>

theorem run_parent_sigtstp_blocked:
  assumes "background command = 0"
  shows "SIGTSTP \<in> sigmask (fg_blocked sys sh) \<and>
         deliver_sigtstp (fg_blocked sys sh) = fg_blocked sys sh \<and>
         background_global (fg_blocked sys sh) = background_global sh \<and>
         out (fg_blocked sys sh) = out sh \<and>
         (case fg_recorded sys child_pid sh of
            None \<Rightarrow> run_parent sys command child_pid sh = (Blocks, fg_blocked sys sh)
          | Some sh3 \<Rightarrow>
              SIGTSTP \<in> sigmask sh3 \<and>
              deliver_sigtstp sh3 = sh3 \<and>
              background_global sh3 = background_global sh \<and>
              out sh3 = out (if WIFSIGNALED (status sh3) then print_status (status sh3) sh else sh) \<and>
              run_parent sys command child_pid sh =
                (Returns 1, sigprocmask_unblock (sigtstp_set sys) sh3) \<and>
              SIGTSTP \<notin> sigmask (snd (run_parent sys command child_pid sh)))"
proof -
  have "SIGTSTP \<notin> sigmask (sigprocmask_unblock (sigtstp_set sys) sh3)" for sh3
    by (simp add: sigprocmask_unblock_def sigtstp_set_def)
  then show ?thesis
    using assms fg_blocked_fields[of sys sh] run_parent_foreground[OF assms, of sys child_pid sh]
    by (auto simp: deliver_sigtstp_blocked fg_recorded_fields split: option.splits)
qed

theorem run_parent_sigtstp_blocked_witness:
  "SIGTSTP \<in> sigmask (fg_blocked
      \<lparr>getpid = 4242, fork_result = 4243, open_result = (\<lambda>_ _. 3), dup2_result = (\<lambda>_ t. t),
       execvp_fails = (\<lambda>_ _. False), getenv_HOME = None, chdir_result = (\<lambda>_ _. None),
       waitpid_blocking = (\<lambda>_. Reaped 0), uninitialised_sigset = {}\<rparr> main_init) \<and>
   fst (run_parent
      \<lparr>getpid = 4242, fork_result = 4243, open_result = (\<lambda>_ _. 3), dup2_result = (\<lambda>_ t. t),
       execvp_fails = (\<lambda>_ _. False), getenv_HOME = None, chdir_result = (\<lambda>_ _. None),
       waitpid_blocking = (\<lambda>_. Reaped 0), uninitialised_sigset = {}\<rparr>
      \<lparr>args = [''ls''], input_file = None, output_file = None, background = 0\<rparr> 4243 main_init)
     = Returns 1 \<and>
   SIGTSTP \<notin> sigmask (snd (run_parent
      \<lparr>getpid = 4242, fork_result = 4243, open_result = (\<lambda>_ _. 3), dup2_result = (\<lambda>_ t. t),
       execvp_fails = (\<lambda>_ _. False), getenv_HOME = None, chdir_result = (\<lambda>_ _. None),
       waitpid_blocking = (\<lambda>_. Reaped 0), uninitialised_sigset = {}\<rparr>
      \<lparr>args = [''ls''], input_file = None, output_file = None, background = 0\<rparr> 4243 main_init))"
proof -
  let ?sys = "\<lparr>getpid = 4242, fork_result = 4243, open_result = (\<lambda>_ _. 3), dup2_result = (\<lambda>_ t. t),
       execvp_fails = (\<lambda>_ _. False), getenv_HOME = None, chdir_result = (\<lambda>_ _. None),
       waitpid_blocking = (\<lambda>_. Reaped 0), uninitialised_sigset = {}\<rparr>"
  let ?ls = "\<lparr>args = [''ls''], input_file = None, output_file = None, background = 0\<rparr>"
  have b: "background ?ls = 0" by simp
  obtain sh3 where r: "fg_recorded ?sys 4243 main_init = Some sh3"
    by (simp add: fg_recorded_def Let_def)
  note t = run_parent_sigtstp_blocked[OF b, of ?sys main_init 4243, unfolded r option.case]
  from t have a: "SIGTSTP \<in> sigmask (fg_blocked ?sys main_init)"
    by (rule conjunct1)
  from t have e: "run_parent ?sys ?ls 4243 main_init =
      (Returns 1, sigprocmask_unblock (sigtstp_set ?sys) sh3)"
    and c: "SIGTSTP \<notin> sigmask (snd (run_parent ?sys ?ls 4243 main_init))"
    by blast+
  have d: "fst (run_parent ?sys ?ls 4243 main_init) = Returns 1"
    unfolding e by simp
  from a d c show ?thesis by (intro conjI)
qed

text \<open>Claim C8 as stated fails between the launch and the wait: after \<open>fork\<close> has returned
  in the parent and before \<open>sigprocmask(SIG_BLOCK, ...)\<close> is called, SIGTSTP is not blocked.
  A SIGTSTP delivered there runs the handler at once: the banner is written, and the status
  256 of the child is recorded with the flag at 0, where it was 1 at the launch.\<close>

theorem sigtstp_between_fork_and_block:
  "SIGTSTP \<notin> sigmask (main_init\<lparr>children := (children main_init)(4243 := Some Running)\<rparr>) \<and>
   background_global (main_init\<lparr>children := (children main_init)(4243 := Some Running)\<rparr>) = 1 \<and>
   out (deliver_sigtstp (main_init\<lparr>children := (children main_init)(4243 := Some Running)\<rparr>)) =
     ''\<newline>Entering foreground-only mode (& is now ignored)\<newline>'' \<and>
   map_option (\<lambda>sh. (status sh, background_global sh))
     (fg_recorded
        \<lparr>getpid = 4242, fork_result = 4243, open_result = (\<lambda>_ _. 3), dup2_result = (\<lambda>_ t. t),
         execvp_fails = (\<lambda>_ _. False), getenv_HOME = None, chdir_result = (\<lambda>_ _. None),
         waitpid_blocking = (\<lambda>_. Reaped 256), uninitialised_sigset = {}\<rparr>
        4243
        (deliver_sigtstp (main_init\<lparr>children := (children main_init)(4243 := Some Running)\<rparr>)))
     = Some (256, 0)"
  by (simp add: deliver_sigtstp_def main_init_fields handle_sigtstp_def write_stdout_def Let_def
      fg_recorded_def fg_blocked_def sigprocmask_block_def WIFSIGNALED_256)

text \<open>Claim C9. For every starting value of the Foreground-only Flag, each delivery of SIGTSTP
  inverts the flag and writes the entering banner when it sets the flag and the exiting banner
  when it clears it; two deliveries return the flag to its prior value and write the two
  banners in that order, and change nothing else.\<close>

theorem handle_sigtstp_twice:
  "foreground_only (handle_sigtstp signo sh) = (\<not> foreground_only sh) \<and>
   out (handle_sigtstp signo sh) =
     out sh @ (if foreground_only (handle_sigtstp signo sh)
               then ''\<newline>Entering foreground-only mode (& is now ignored)\<newline>''
               else ''\<newline>Exiting foreground-only mode\<newline>'') \<and>
   handle_sigtstp signo' (handle_sigtstp signo sh) =
     sh\<lparr>background_global := (if background_global sh = 0 then 0 else 1),
        out := out sh @
          (if foreground_only sh
           then ''\<newline>Exiting foreground-only mode\<newline>'' @
                ''\<newline>Entering foreground-only mode (& is now ignored)\<newline>''
           else ''\<newline>Entering foreground-only mode (& is now ignored)\<newline>'' @
                ''\<newline>Exiting foreground-only mode\<newline>'')\<rparr> \<and>
   foreground_only (handle_sigtstp signo' (handle_sigtstp signo sh)) = foreground_only sh"
  by (simp add: handle_sigtstp_def foreground_only_def write_stdout_def Let_def)

theorem handle_sigtstp_twice_witness:
  "background_global (handle_sigtstp 20 (handle_sigtstp 20 main_init)) = 1 \<and>
   background_global (handle_sigtstp 20 main_init) = 0 \<and>
   out (handle_sigtstp 20 (handle_sigtstp 20 main_init)) =
     ''\<newline>Entering foreground-only mode (& is now ignored)\<newline>'' @
     ''\<newline>Exiting foreground-only mode\<newline>''"
proof -
  have "background_global main_init = 1" "out main_init = []"
    by (simp_all add: main_init_def register_signal_handler_def)
  then show ?thesis
    using handle_sigtstp_twice[of 20 main_init 20]
    by (simp add: foreground_only_def)
qed

text \<open>Claim C10. \<open>run\<close> returns 0 if and only if argv is non-empty and \<open>argv[0]\<close> is \<open>exit\<close>;
  whenever it returns for another plan it returns 1, and it returns for the empty plan, for
  \<open>cd\<close> and \<open>status\<close>, when \<open>fork\<close> fails, for every background command and for every
  foreground command whose child terminates (in the child, \<open>run\<close> ends in \<open>execvp\<close> or
  \<open>exit(1)\<close> and does not return). So an iteration of the main loop leaves \<open>running\<close> at 0
  only when the parsed line is the \<open>exit\<close> built-in.\<close>

theorem run_return_value:
  "(fst (run sys command sh) = Returns 0 \<longleftrightarrow> args command \<noteq> [] \<and> hd (args command) = ''exit'') \<and>
   (\<forall>r. fst (run sys command sh) = Returns r \<longrightarrow>
        r = (if args command \<noteq> [] \<and> hd (args command) = ''exit'' then 0 else 1)) \<and>
   ((\<exists>r. fst (run sys command sh) = Returns r) \<longleftrightarrow>
      builtin command \<or>
      fork_result sys = - 1 \<or>
      (fork_result sys \<noteq> 0 \<and>
       (background command \<noteq> 0 \<or> waitpid_blocking sys (fork_result sys) \<noteq> Never_returns))) \<and>
   (\<forall>st input sh'. main_iteration sys st input sh = Inr (Returns 0, sh') \<longrightarrow>
      (\<exists>c. parse (getpid sys) (background_global sh) (take (LEN_INPUT - 1) input) = Inr c \<and>
           args c \<noteq> [] \<and> hd (args c) = ''exit''))"
proof -
  have "fst (run sys command sh) = Returns 0 \<longleftrightarrow> args command \<noteq> [] \<and> hd (args command) = ''exit''"
    using run_child_not_Returns[of command sys sh]
    by (auto simp: fst_run run_parent_Returns)
  moreover have "\<forall>r. fst (run sys command sh) = Returns r \<longrightarrow>
        r = (if args command \<noteq> [] \<and> hd (args command) = ''exit'' then 0 else 1)"
    using run_child_not_Returns[of command sys sh]
    by (auto simp: fst_run run_parent_Returns split: if_splits)
  moreover have "(\<exists>r. fst (run sys command sh) = Returns r) \<longleftrightarrow>
      builtin command \<or>
      fork_result sys = - 1 \<or>
      (fork_result sys \<noteq> 0 \<and>
       (background command \<noteq> 0 \<or> waitpid_blocking sys (fork_result sys) \<noteq> Never_returns))"
    using run_child_not_Returns[of command sys sh]
    by (auto simp: fst_run run_parent_Returns builtin_def)
  ultimately show ?thesis
    using main_iteration_stops[of sys _ _ sh] by blast
qed

theorem run_return_value_witness:
  "fst (run \<lparr>getpid = 4242, fork_result = 4243, open_result = (\<lambda>_ _. 3), dup2_result = (\<lambda>_ t. t),
             execvp_fails = (\<lambda>_ _. False), getenv_HOME = None, chdir_result = (\<lambda>_ _. None),
             waitpid_blocking = (\<lambda>_. Reaped 0), uninitialised_sigset = {}\<rparr>
           \<lparr>args = [''ls''], input_file = None, output_file = None, background = 0\<rparr> main_init)
     = Returns 1 \<and>
   fst (run \<lparr>getpid = 4242, fork_result = 4243, open_result = (\<lambda>_ _. 3), dup2_result = (\<lambda>_ t. t),
             execvp_fails = (\<lambda>_ _. False), getenv_HOME = None, chdir_result = (\<lambda>_ _. None),
             waitpid_blocking = (\<lambda>_. Reaped 0), uninitialised_sigset = {}\<rparr>
           \<lparr>args = [''exit''], input_file = None, output_file = None, background = 0\<rparr> main_init)
     = Returns 0"
proof -
  let ?sys = "\<lparr>getpid = 4242, fork_result = 4243, open_result = (\<lambda>_ _. 3), dup2_result = (\<lambda>_ t. t),
             execvp_fails = (\<lambda>_ _. False), getenv_HOME = None, chdir_result = (\<lambda>_ _. None),
             waitpid_blocking = (\<lambda>_. Reaped 0), uninitialised_sigset = {}\<rparr>"
  let ?ls = "\<lparr>args = [''ls''], input_file = None, output_file = None, background = 0\<rparr>"
  let ?exit = "\<lparr>args = [''exit''], input_file = None, output_file = None, background = 0\<rparr>"
  have "\<exists>r. fst (run ?sys ?ls main_init) = Returns r"
    using run_return_value[of ?sys ?ls main_init] by simp
  then obtain r where r: "fst (run ?sys ?ls main_init) = Returns r" ..
  then have "r = 1"
    using run_return_value[of ?sys ?ls main_init] by simp
  moreover have "fst (run ?sys ?exit main_init) = Returns 0"
    using run_return_value[of ?sys ?exit main_init] by simp
  ultimately show ?thesis using r by simp
qed

end
